theory Spec2Isabelle
  imports Complex_Main "HOL-Library.Product_Lexorder" "HOL-Library.Multiset"
    "HOL-Library.Code_Target_Nat"
begin

section \<open>JavaScript strings and numbers\<close>

text \<open>
  A JavaScript string is modelled as a \<open>string\<close>: one \<open>char\<close> per code unit, for the
  code units below 256.  A value that may be \<open>undefined\<close> or \<open>null\<close> is an \<open>option\<close>.
  Integers produced by \<open>parseInt\<close> are unbounded \<open>int\<close>s (a double is exact up to
  2^53); the result \<open>NaN\<close> is \<open>None\<close>.
\<close>

text \<open>The classes \<open>[0-9]\<close> and \<open>[A-Za-z]\<close>, by character code.\<close>

definition is_digit :: "char \<Rightarrow> bool" where
  "is_digit c = (let n = (of_char c :: nat) in 48 \<le> n \<and> n \<le> 57)"

definition is_alpha :: "char \<Rightarrow> bool" where
  "is_alpha c = (let n = (of_char c :: nat) in (65 \<le> n \<and> n \<le> 90) \<or> (97 \<le> n \<and> n \<le> 122))"

text \<open>The class \<open>\w\<close> of a regular expression: \<open>[A-Za-z0-9_]\<close>.\<close>

definition is_word :: "char \<Rightarrow> bool" where
  "is_word c = (is_alpha c \<or> is_digit c \<or> c = CHR ''_'')"

text \<open>White space and line terminators, as \<open>trim\<close>, \<open>parseInt\<close> and \<open>parseFloat\<close> skip
  them: TAB, LF, VT, FF, CR, SP and NBSP.\<close>

definition is_space :: "char \<Rightarrow> bool" where
  "is_space c = ((of_char c :: nat) \<in> {9, 10, 11, 12, 13, 32, 160})"

definition trim :: "string \<Rightarrow> string" where
  "trim s = rev (dropWhile is_space (rev (dropWhile is_space s)))"

definition digit_val :: "char \<Rightarrow> nat" where
  "digit_val c = (of_char c :: nat) - 48"

definition digits_val :: "string \<Rightarrow> nat" where
  "digits_val ds = foldl (\<lambda>a c. 10 * a + digit_val c) 0 ds"

definition strip_sign :: "string \<Rightarrow> bool \<times> string" where
  "strip_sign t =
     (case t of
        [] \<Rightarrow> (False, [])
      | c # r \<Rightarrow> if c = CHR ''-'' then (True, r)
                 else if c = CHR ''+'' then (False, r) else (False, t))"

text \<open>\<open>parseInt(s, 10)\<close>: leading white space, an optional sign, then the longest run of
  decimal digits; no digit gives \<open>NaN\<close>.  The argument \<open>undefined\<close> gives \<open>NaN\<close>.\<close>

definition parseInt10 :: "string option \<Rightarrow> int option" where
  "parseInt10 v =
     (case v of
        None \<Rightarrow> None
      | Some s \<Rightarrow>
          (let (neg, u) = strip_sign (dropWhile is_space s);
               ds = takeWhile is_digit u
           in if ds = [] then None
              else Some (if neg then - int (digits_val ds) else int (digits_val ds))))"

definition is_hex :: "char \<Rightarrow> bool" where
  "is_hex c =
     (let n = (of_char c :: nat)
      in (48 \<le> n \<and> n \<le> 57) \<or> (65 \<le> n \<and> n \<le> 70) \<or> (97 \<le> n \<and> n \<le> 102))"

definition hex_val :: "char \<Rightarrow> nat" where
  "hex_val c =
     (if is_digit c then digit_val c
      else if 97 \<le> (of_char c :: nat) then (of_char c :: nat) - 87
      else (of_char c :: nat) - 55)"

text \<open>\<open>parseInt(s)\<close> with no radix: as above, but a prefix \<open>0x\<close> or \<open>0X\<close> after the sign
  selects radix 16.\<close>

definition parseInt :: "string \<Rightarrow> int option" where
  "parseInt s =
     (let (neg, u) = strip_sign (dropWhile is_space s);
          hex = (take 2 u = ''0x'' \<or> take 2 u = ''0X'');
          ds = (if hex then takeWhile is_hex (drop 2 u) else takeWhile is_digit u);
          n = (if hex then foldl (\<lambda>a c. 16 * a + hex_val c) 0 ds else digits_val ds)
      in if ds = [] then None else Some (if neg then - int n else int n))"

text \<open>\<open>String(n)\<close> for an integer \<open>n\<close>, and \<open>padStart(2, '0')\<close>.\<close>

fun dec_of_nat :: "nat \<Rightarrow> string" where
  "dec_of_nat n =
     (if n < 10 then [''0123456789'' ! n]
      else dec_of_nat (n div 10) @ [''0123456789'' ! (n mod 10)])"

declare dec_of_nat.simps [simp del]

definition String_of_int :: "int \<Rightarrow> string" where
  "String_of_int i = (if i < 0 then CHR ''-'' # dec_of_nat (nat (- i)) else dec_of_nat (nat i))"

definition padStart2 :: "string \<Rightarrow> string" where
  "padStart2 s = replicate (2 - length s) (CHR ''0'') @ s"

text \<open>\<open>s.split(c)\<close> and \<open>xs.join(c)\<close> for a separator of one character.\<close>

fun split_on :: "char \<Rightarrow> string \<Rightarrow> string list" where
  "split_on c [] = [[]]"
| "split_on c (x # xs) =
     (if x = c then [] # split_on c xs
      else (case split_on c xs of [] \<Rightarrow> [[x]] | y # ys \<Rightarrow> (x # y) # ys))"

fun join_with :: "char \<Rightarrow> string list \<Rightarrow> string" where
  "join_with c [] = []"
| "join_with c [x] = x"
| "join_with c (x # y # ys) = x @ c # join_with c (y # ys)"

definition join_space :: "string list \<Rightarrow> string" where
  "join_space xs = join_with (CHR '' '') xs"

text \<open>
  A JavaScript number.  A finite double is modelled by the rational it stands for:
  rounding to 53 bits and overflow to infinity are not modelled, and \<open>-0\<close> is \<open>0\<close>.
\<close>

datatype jsnum = Fin rat | PInf | NInf | NaN

fun js_neg :: "jsnum \<Rightarrow> jsnum" where
  "js_neg (Fin a) = Fin (- a)"
| "js_neg PInf = NInf"
| "js_neg NInf = PInf"
| "js_neg NaN = NaN"

fun js_sub :: "jsnum \<Rightarrow> jsnum \<Rightarrow> jsnum" where
  "js_sub (Fin a) (Fin b) = Fin (a - b)"
| "js_sub NaN _ = NaN"
| "js_sub _ NaN = NaN"
| "js_sub PInf PInf = NaN"
| "js_sub NInf NInf = NaN"
| "js_sub PInf _ = PInf"
| "js_sub NInf _ = NInf"
| "js_sub (Fin _) PInf = NInf"
| "js_sub (Fin _) NInf = PInf"

definition pow10 :: "int \<Rightarrow> rat" where
  "pow10 e = (if 0 \<le> e then 10 ^ nat e else 1 / 10 ^ nat (- e))"

text \<open>The exponent part of a decimal literal: \<open>e\<close> or \<open>E\<close>, an optional sign and at least
  one digit; anything else is no exponent.\<close>

definition exponent_part :: "string \<Rightarrow> int" where
  "exponent_part r =
     (case r of
        [] \<Rightarrow> 0
      | c # r' \<Rightarrow>
          if c = CHR ''e'' \<or> c = CHR ''E'' then
            (let (neg, u) = strip_sign r'; ds = takeWhile is_digit u
             in if ds = [] then 0
                else if neg then - int (digits_val ds) else int (digits_val ds))
          else 0)"

text \<open>The longest prefix that is a \<open>StrUnsignedDecimalLiteral\<close>: \<open>Infinity\<close>, or digits
  with an optional fraction and exponent, with a digit before or after the point.\<close>

definition unsigned_decimal :: "string \<Rightarrow> jsnum option" where
  "unsigned_decimal u =
     (if take 8 u = ''Infinity'' then Some PInf
      else
        (let ip = takeWhile is_digit u;
             r1 = dropWhile is_digit u;
             dot = (r1 \<noteq> [] \<and> hd r1 = CHR ''.'');
             fp = (if dot then takeWhile is_digit (tl r1) else []);
             r2 = (if dot then dropWhile is_digit (tl r1) else r1)
         in if ip = [] \<and> fp = [] then None
            else Some (Fin (rat_of_nat (digits_val (ip @ fp)) / 10 ^ length fp
                             * pow10 (exponent_part r2)))))"

definition parseFloat :: "string \<Rightarrow> jsnum" where
  "parseFloat s =
     (let (neg, u) = strip_sign (dropWhile is_space s)
      in case unsigned_decimal u of
           None \<Rightarrow> NaN
         | Some v \<Rightarrow> if neg then js_neg v else v)"

text \<open>
  \<^verbatim>\<open>
  function parseAmount(val) {
      if (val === null || val === undefined) return 0;
      const cleaned = String(val).replace(/,/g, '');
      return parseFloat(cleaned) || 0;
  }
  \<close>
\<close>

definition parseAmount :: "string option \<Rightarrow> jsnum" where
  "parseAmount val =
     (case val of
        None \<Rightarrow> Fin 0
      | Some s \<Rightarrow>
          (let cleaned = filter (\<lambda>c. c \<noteq> CHR '','') s
           in case parseFloat cleaned of NaN \<Rightarrow> Fin 0 | v \<Rightarrow> v))"

section \<open>Date normalisation\<close>

text \<open>\<open>toLowerCase\<close>, on the letters \<open>A-Z\<close> (it is applied to a match of \<open>[A-Za-z]{3}\<close>).\<close>

definition toLowerCase_ascii :: "string \<Rightarrow> string" where
  "toLowerCase_ascii s =
     map (\<lambda>c. case map_of (zip ''ABCDEFGHIJKLMNOPQRSTUVWXYZ'' ''abcdefghijklmnopqrstuvwxyz'') c of
               None \<Rightarrow> c | Some d \<Rightarrow> d) s"

definition MONTHS :: "string \<Rightarrow> int option" where
  "MONTHS = map_of
     [(''jan'', 1), (''feb'', 2), (''mar'', 3), (''apr'', 4), (''may'', 5), (''jun'', 6),
      (''jul'', 7), (''aug'', 8), (''sep'', 9), (''oct'', 10), (''nov'', 11), (''dec'', 12)]"

text \<open>The match of \<^verbatim>\<open>/^(\d{1,2})-([A-Za-z]{3})-(\d{2,4})$/\<close>, read from left to right: the
  three groups, or \<open>None\<close> when the string does not match.\<close>

definition match_mon :: "string \<Rightarrow> (string \<times> string \<times> string) option" where
  "match_mon s =
     (let d = takeWhile is_digit s; r = dropWhile is_digit s
      in if (length d = 1 \<or> length d = 2) \<and> r \<noteq> [] \<and> hd r = CHR ''-'' then
           (let m = take 3 (tl r); r' = drop 3 (tl r)
            in if length m = 3 \<and> list_all is_alpha m \<and> r' \<noteq> [] \<and> hd r' = CHR ''-'' then
                 (let y = tl r'
                  in if 2 \<le> length y \<and> length y \<le> 4 \<and> list_all is_digit y
                     then Some (d, m, y) else None)
               else None)
         else None)"

text \<open>The match of \<^verbatim>\<open>/^(\d{4})-(\d{2})-(\d{2})/\<close>: a prefix of ten characters.\<close>

definition match_iso :: "string \<Rightarrow> (string \<times> string \<times> string) option" where
  "match_iso s =
     (let y = take 4 s; m = take 2 (drop 5 s); d = take 2 (drop 8 s)
      in if length s \<ge> 10 \<and> list_all is_digit y \<and> s ! 4 = CHR ''-'' \<and> list_all is_digit m
            \<and> s ! 7 = CHR ''-'' \<and> list_all is_digit d
         then Some (y, m, d) else None)"

definition pivot_year :: "int \<Rightarrow> int" where
  "pivot_year v = (if v < 50 then 2000 + v else 1900 + v)"

text \<open>The shared tail of both \<open>DD-Mon\<close> branches: day, month and year of a match, with the
  month looked up in \<open>MONTHS\<close>; \<open>None\<close> when the abbreviation is unknown.\<close>

definition mon_date :: "string \<times> string \<times> string \<Rightarrow> string option" where
  "mon_date g =
     (case g of (d, m, y) \<Rightarrow>
        (case (parseInt10 (Some d), MONTHS (toLowerCase_ascii m), parseInt10 (Some y)) of
           (Some day, Some month, Some year0) \<Rightarrow>
             (let year = (if year0 < 100 then pivot_year year0 else year0)
              in Some (String_of_int year @ ''-'' @ padStart2 (String_of_int month) @ ''-''
                       @ padStart2 (String_of_int day)))
         | _ \<Rightarrow> None))"

text \<open>One step of \<^verbatim>\<open>fmt.forEach((token, i) => ...)\<close> on the variables
  \<open>(day, month, year)\<close>; \<open>undefined\<close> and \<open>NaN\<close> are both \<open>None\<close> (both are falsy).\<close>

definition assign_token ::
  "string list \<Rightarrow> int option \<times> int option \<times> int option \<Rightarrow> string \<times> nat
     \<Rightarrow> int option \<times> int option \<times> int option" where
  "assign_token parts dmy ti =
     (case (dmy, ti) of ((day, month, year), (token, i)) \<Rightarrow>
        (let val = parseInt10 (if i < length parts then Some (parts ! i) else None)
         in if token = ''DD'' then (val, month, year)
            else if token = ''MM'' then (day, val, year)
            else if token = ''YYYY'' then (day, month, val)
            else if token = ''YY'' then (day, month, map_option pivot_year val)
            else (day, month, year)))"

definition truthy_int :: "int option \<Rightarrow> bool" where
  "truthy_int v = (case v of None \<Rightarrow> False | Some n \<Rightarrow> n \<noteq> 0)"

text \<open>
  \<open>normalizeDate(dateStr, format)\<close>.  The last resort of the auto-detect mode,
  \<^verbatim>\<open>new Date(s)\<close>, is the browser's own parser: it is the parameter \<open>dateParse\<close>, which
  returns \<open>(getFullYear(), getMonth(), getDate())\<close>, or \<open>None\<close> for an invalid date.
\<close>

definition normalizeDate ::
  "(string \<Rightarrow> (int \<times> int \<times> int) option) \<Rightarrow> string option \<Rightarrow> string \<Rightarrow> string option" where
  "normalizeDate dateParse dateStr format =
     (case dateStr of
        None \<Rightarrow> None
      | Some ds \<Rightarrow>
          if ds = [] then None
          else
            (let s = trim ds in
             if format \<noteq> [] \<and> format \<noteq> ''auto'' then
               (if format = ''DD-Mon-YY'' \<or> format = ''DD-Mon-YYYY'' then
                  (case match_mon s of None \<Rightarrow> None | Some g \<Rightarrow> mon_date g)
                else
                  (let sep = (if CHR ''/'' \<in> set format then CHR ''/'' else CHR ''-'');
                       parts = split_on sep s
                   in if length parts \<noteq> 3 then None
                      else
                        (let fmt = split_on sep format;
                             (day, month, year) =
                                foldl (assign_token parts) (None, None, None)
                                  (zip fmt [0..<length fmt])
                         in if \<not> truthy_int day \<or> \<not> truthy_int month \<or> \<not> truthy_int year
                            then None
                            else Some (String_of_int (the year) @ ''-''
                                       @ padStart2 (String_of_int (the month)) @ ''-''
                                       @ padStart2 (String_of_int (the day))))))
             else
               (case match_iso s of
                  Some (y, m, d) \<Rightarrow> Some (y @ ''-'' @ m @ ''-'' @ d)
                | None \<Rightarrow>
                    (case (case match_mon s of None \<Rightarrow> None | Some g \<Rightarrow> mon_date g) of
                       Some r \<Rightarrow> Some r
                     | None \<Rightarrow>
                         (case dateParse s of
                            None \<Rightarrow> None
                          | Some (y, m, d) \<Rightarrow>
                              Some (String_of_int y @ ''-'' @ padStart2 (String_of_int (m + 1))
                                    @ ''-'' @ padStart2 (String_of_int d)))))))"

section \<open>Column mapping\<close>

record profile =
  hasHeader :: bool
  skipRows :: nat
  dateColumn :: string
  descriptionColumn :: string
  amountColumn :: string
  creditColumn :: string
  debitColumn :: string
  dateFormat :: string

text \<open>
  A parsed row: an object from column name to cell when the file has a header, an array
  of cells otherwise.  \<open>Papa.parse\<close> is called with \<^verbatim>\<open>header: profile.hasHeader !== false\<close>,
  so the shape of a row agrees with the branch \<open>mapTransaction\<close> takes; a lookup on the
  other shape finds nothing.  A missing property is \<open>None\<close>; column names that are
  properties of every object (\<open>constructor\<close>, \<open>toString\<close>) are not modelled.
\<close>

datatype raw_row = HeaderedRow "string \<rightharpoonup> string" | HeaderlessRow "string list"

definition by_name :: "raw_row \<Rightarrow> string \<Rightarrow> string option" where
  "by_name row col = (case row of HeaderedRow m \<Rightarrow> m col | HeaderlessRow xs \<Rightarrow> None)"

definition by_index :: "raw_row \<Rightarrow> int option \<Rightarrow> string option" where
  "by_index row idx =
     (case row of
        HeaderedRow m \<Rightarrow> None
      | HeaderlessRow xs \<Rightarrow>
          (case idx of
             None \<Rightarrow> None
           | Some i \<Rightarrow> if 0 \<le> i \<and> i < int (length xs) then Some (xs ! nat i) else None))"

record transaction =
  import_id :: int
  date :: "string option"
  description :: string
  amount :: jsnum
  category :: string

definition categorizeTransaction :: "string option \<Rightarrow> string" where
  "categorizeTransaction descr = ''Uncategorized''"

definition blank :: "string option \<Rightarrow> bool" where
  "blank raw = (case raw of None \<Rightarrow> True | Some s \<Rightarrow> trim s = [])"

text \<open>The description cell(s) of a row; \<open>undefined\<close> is \<open>None\<close>.\<close>

definition map_description :: "profile \<Rightarrow> raw_row \<Rightarrow> string option" where
  "map_description p row =
     (if hasHeader p then
        (if CHR '','' \<in> set (descriptionColumn p) then
           (let columns = map trim (split_on (CHR '','') (descriptionColumn p))
            in Some (join_space (map the (filter (\<lambda>v. \<not> blank v) (map (by_name row) columns)))))
         else by_name row (descriptionColumn p))
      else
        (if CHR '','' \<in> set (descriptionColumn p) then
           (let indices = map (\<lambda>c. parseInt (trim c)) (split_on (CHR '','') (descriptionColumn p))
            in Some (join_space (map the (filter (\<lambda>v. \<not> blank v) (map (by_index row) indices)))))
         else by_index row (parseInt (descriptionColumn p))))"

text \<open>The amount of a row; \<open>None\<close> is the early \<^verbatim>\<open>return null\<close> of the single-column
  branch.\<close>

definition map_amount :: "profile \<Rightarrow> raw_row \<Rightarrow> jsnum option" where
  "map_amount p row =
     (if hasHeader p then
        (if creditColumn p \<noteq> [] \<and> debitColumn p \<noteq> [] then
           (let credit = parseAmount (by_name row (creditColumn p));
                debit = parseAmount (by_name row (debitColumn p))
            in Some (js_sub credit debit))
         else
           (let raw = by_name row (amountColumn p)
            in if blank raw then None else Some (parseAmount raw)))
      else
        (if creditColumn p \<noteq> [] \<and> debitColumn p \<noteq> [] then
           (let credit = parseAmount (by_index row (parseInt (creditColumn p)));
                debit = parseAmount (by_index row (parseInt (debitColumn p)))
            in Some (js_sub credit debit))
         else
           (let raw = by_index row (parseInt (amountColumn p))
            in if blank raw then None else Some (parseAmount raw))))"

definition map_date :: "profile \<Rightarrow> raw_row \<Rightarrow> string option" where
  "map_date p row =
     (if hasHeader p then by_name row (dateColumn p)
      else by_index row (parseInt (dateColumn p)))"

text \<open>\<open>mapTransaction(row, profile, importId, dateFormat)\<close>; \<open>None\<close> is \<^verbatim>\<open>return null\<close>.\<close>

definition mapTransaction ::
  "(string \<Rightarrow> (int \<times> int \<times> int) option) \<Rightarrow> raw_row \<Rightarrow> profile \<Rightarrow> int \<Rightarrow> string
     \<Rightarrow> transaction option" where
  "mapTransaction dateParse row p importId dateFormat' =
     (case map_amount p row of
        None \<Rightarrow> None
      | Some amt \<Rightarrow>
          (case map_date p row of
             None \<Rightarrow> None
           | Some d \<Rightarrow>
               if d = [] then None
               else Some \<lparr> import_id = importId,
                           date = normalizeDate dateParse (Some d)
                                    (if dateFormat' \<noteq> [] then dateFormat' else dateFormat p),
                           description = (case map_description p row of None \<Rightarrow> [] | Some s \<Rightarrow> s),
                           amount = amt,
                           category = categorizeTransaction (map_description p row) \<rparr>))"

section \<open>Rule engine\<close>

text \<open>
  The pattern \<^verbatim>\<open>new RegExp(`(^|[^\\w])${escapedKeyword}([^\\w]|$)`, flags)\<close> uses five
  constructs: the assertions \<open>^\<close> and \<open>$\<close> (no \<open>m\<close> flag: start and end of the input),
  the class \<open>[^\w]\<close>, literal characters, and sequence and alternative.  The replacement
  \<^verbatim>\<open>keyword.replace(/[.*+?^${}()|[\]\\]/g, '\\$&')\<close> puts a backslash before each of the
  fourteen syntax characters, so every character of the keyword is a literal of the
  pattern.
\<close>

datatype regex = Bol | Eol | NotWord | Lit char | Empty | Seq regex regex | Alt regex regex

text \<open>\<open>Canonicalize\<close> of a code unit under the flag \<open>i\<close> (no \<open>u\<close> flag) is its upper case
  when that is one code unit: below 256, the letters \<open>a-z\<close> and \<open>0xE0-0xFE\<close> without \<open>0xF7\<close>
  move down by 32 (the upper cases of \<open>0xB5\<close> and \<open>0xFF\<close> are above 255 and are the upper
  case of no other code unit below 256).  Two characters are the same under the flag
  when their canonical codes are equal.\<close>

definition canon_code :: "char \<Rightarrow> nat" where
  "canon_code c =
     (let n = (of_char c :: nat)
      in if (97 \<le> n \<and> n \<le> 122) \<or> (224 \<le> n \<and> n \<le> 254 \<and> n \<noteq> 247) then n - 32 else n)"

definition same_char :: "bool \<Rightarrow> char \<Rightarrow> char \<Rightarrow> bool" where
  "same_char ic a b = (if ic then canon_code a = canon_code b else a = b)"

text \<open>A backtracking matcher: the end positions of the matches of \<open>r\<close> that start at
  position \<open>i\<close> of the input \<open>s\<close>, in the order the engine tries them.\<close>

fun rx :: "bool \<Rightarrow> regex \<Rightarrow> string \<Rightarrow> nat \<Rightarrow> nat list" where
  "rx ic Bol s i = (if i = 0 then [i] else [])"
| "rx ic Eol s i = (if i = length s then [i] else [])"
| "rx ic NotWord s i = (if i < length s \<and> \<not> is_word (s ! i) then [Suc i] else [])"
| "rx ic (Lit c) s i = (if i < length s \<and> same_char ic (s ! i) c then [Suc i] else [])"
| "rx ic Empty s i = [i]"
| "rx ic (Seq a b) s i = concat (map (rx ic b s) (rx ic a s i))"
| "rx ic (Alt a b) s i = rx ic a s i @ rx ic b s i"

text \<open>\<open>pattern.test(s)\<close>: a match starting at some position of the input.\<close>

definition rx_test :: "bool \<Rightarrow> regex \<Rightarrow> string \<Rightarrow> bool" where
  "rx_test ic r s = list_ex (\<lambda>i. rx ic r s i \<noteq> []) [0..<Suc (length s)]"

definition literal :: "string \<Rightarrow> regex" where
  "literal kw = foldr (\<lambda>c r. Seq (Lit c) r) kw Empty"

definition word_pattern :: "string \<Rightarrow> regex" where
  "word_pattern kw = Seq (Alt Bol NotWord) (Seq (literal kw) (Alt NotWord Eol))"

text \<open>The tables of the database that the rule engine and the import read and write.
  \<open>INTEGER\<close> columns are \<open>int\<close>, a nullable column is an \<open>option\<close>.\<close>

record category_row =
  cat_id :: int
  cat_name :: string

record rule_row =
  rule_id :: int
  keyword :: string
  action :: string
  category_value :: "int option"
  case_sensitive :: int
  enabled :: int
  priority :: int

record txn_row =
  row_id :: int
  row_import_id :: int
  row_date :: string
  row_description :: "string option"
  row_amount :: jsnum
  row_category_id :: "int option"
  row_ignored :: int
  row_auto_ignored :: int
  row_manual_category :: int

record import_row =
  imp_id :: int
  imp_filename :: string
  imp_account_id :: string
  imp_transaction_count :: int

text \<open>The database: its tables, and the last row ids handed out by \<open>AUTOINCREMENT\<close>.
  The column \<open>import_date\<close> of \<open>imports\<close> (the wall clock) is left out.\<close>

record db =
  categories :: "category_row list"
  transaction_rules :: "rule_row list"
  transactions :: "txn_row list"
  import_records :: "import_row list"
  txn_seq :: int
  import_seq :: int

text \<open>\<^verbatim>\<open>SELECT id FROM categories WHERE name = ?\<close> through \<open>queryValue\<close>: the first row's id,
  or \<open>null\<close>; and the \<open>LEFT JOIN\<close> of a category id with the table (\<open>id\<close> is the primary
  key: at most one row joins).\<close>

definition category_id_of :: "db \<Rightarrow> string \<Rightarrow> int option" where
  "category_id_of d name =
     map_option cat_id (find (\<lambda>c. cat_name c = name) (categories d))"

definition category_name_of :: "db \<Rightarrow> int option \<Rightarrow> string option" where
  "category_name_of d cid =
     (case cid of
        None \<Rightarrow> None
      | Some i \<Rightarrow> map_option cat_name (find (\<lambda>c. cat_id c = i) (categories d)))"

text \<open>A row of the rules query: \<open>rule[0]\<close> to \<open>rule[3]\<close>.\<close>

record rule_view =
  rv_keyword :: string
  rv_action :: string
  rv_category :: "string option"
  rv_case_sensitive :: int

text \<open>
  \<^verbatim>\<open>
  SELECT tr.keyword, tr.action, c.name as category_name, tr.case_sensitive
  FROM transaction_rules tr LEFT JOIN categories c ON tr.category_value = c.id
  WHERE tr.enabled = 1
  ORDER BY tr.priority DESC, tr.id ASC
  \<close>
\<close>

definition select_rules :: "db \<Rightarrow> rule_view list" where
  "select_rules d =
     map (\<lambda>r. \<lparr> rv_keyword = keyword r, rv_action = action r,
                 rv_category = category_name_of d (category_value r),
                 rv_case_sensitive = case_sensitive r \<rparr>)
       (sort_key (\<lambda>r. (- priority r, rule_id r))
          (filter (\<lambda>r. enabled r = 1) (transaction_rules d)))"

definition rule_matches :: "rule_view \<Rightarrow> string \<Rightarrow> bool" where
  "rule_matches rv descr =
     rx_test (rv_case_sensitive rv = 0) (word_pattern (rv_keyword rv)) descr"

record rule_result =
  shouldIgnore :: bool
  res_category :: string

text \<open>The variables of the loop over the rules.\<close>

record scan_state =
  st_shouldIgnore :: bool
  st_category :: string
  ignoreRuleMatched :: bool
  categoryRuleMatched :: bool

definition truthy_str :: "string option \<Rightarrow> bool" where
  "truthy_str v = (case v of None \<Rightarrow> False | Some s \<Rightarrow> s \<noteq> [])"

text \<open>The body of the \<open>if (pattern.test(description))\<close> block, up to the \<open>break\<close> test.\<close>

definition apply_rule :: "rule_view \<Rightarrow> scan_state \<Rightarrow> scan_state" where
  "apply_rule rv st =
     (if rv_action rv = ''ignore'' \<and> \<not> ignoreRuleMatched st then
        st\<lparr> st_shouldIgnore := True, ignoreRuleMatched := True \<rparr>
      else if rv_action rv = ''categorize'' \<and> \<not> categoryRuleMatched st
              \<and> truthy_str (rv_category rv) then
        st\<lparr> st_category := the (rv_category rv), categoryRuleMatched := True \<rparr>
      else st)"

text \<open>The \<open>for\<close> loop, with its \<open>break\<close> once both kinds of rule have matched.\<close>

fun scan_rules :: "string \<Rightarrow> rule_view list \<Rightarrow> scan_state \<Rightarrow> scan_state" where
  "scan_rules descr [] st = st"
| "scan_rules descr (rv # rvs) st =
     (if rule_matches rv descr then
        (let st' = apply_rule rv st
         in if ignoreRuleMatched st' \<and> categoryRuleMatched st' then st'
            else scan_rules descr rvs st')
      else scan_rules descr rvs st)"

text \<open>The same loop without the \<open>break\<close>: every rule of the list is visited.\<close>

fun scan_all :: "string \<Rightarrow> rule_view list \<Rightarrow> scan_state \<Rightarrow> scan_state" where
  "scan_all descr [] st = st"
| "scan_all descr (rv # rvs) st =
     (if rule_matches rv descr then scan_all descr rvs (apply_rule rv st)
      else scan_all descr rvs st)"

definition run_rules :: "rule_view list \<Rightarrow> string \<Rightarrow> string \<Rightarrow> rule_result" where
  "run_rules rvs descr fallbackCategory =
     (if rvs = [] then \<lparr> shouldIgnore = False, res_category = fallbackCategory \<rparr>
      else
        (let st = scan_rules descr rvs
                    \<lparr> st_shouldIgnore = False, st_category = fallbackCategory,
                      ignoreRuleMatched = False, categoryRuleMatched = False \<rparr>
         in \<lparr> shouldIgnore = st_shouldIgnore st, res_category = st_category st \<rparr>))"

text \<open>\<open>applyTransactionRules(description, defaultCategory)\<close>, reading the rules from the
  database.  Its \<open>catch\<close> branch, for a database that cannot be read, is not modelled: the
  pattern of an escaped keyword always compiles.\<close>

definition applyTransactionRules :: "db \<Rightarrow> string option \<Rightarrow> string option \<Rightarrow> rule_result" where
  "applyTransactionRules d descr defaultCategory =
     (let fallbackCategory = (if truthy_str defaultCategory then the defaultCategory
                              else ''Uncategorized'')
      in if \<not> truthy_str descr then \<lparr> shouldIgnore = False, res_category = fallbackCategory \<rparr>
         else run_rules (select_rules d) (the descr) fallbackCategory)"

definition run_rules_all :: "rule_view list \<Rightarrow> string \<Rightarrow> string \<Rightarrow> rule_result" where
  "run_rules_all rvs descr fallbackCategory =
     (let st = scan_all descr rvs
                 \<lparr> st_shouldIgnore = False, st_category = fallbackCategory,
                   ignoreRuleMatched = False, categoryRuleMatched = False \<rparr>
      in \<lparr> shouldIgnore = st_shouldIgnore st, res_category = st_category st \<rparr>)"

section \<open>Import\<close>

text \<open>
  \<open>insertTransaction(transaction)\<close>.  The \<open>INSERT\<close> goes through \<open>dbHelpers.safeRun\<close>,
  which catches the database's error and goes on: the columns \<open>date\<close> and \<open>amount\<close> of
  \<open>transactions\<close> are \<open>NOT NULL\<close>, a \<open>null\<close> date is bound as \<open>NULL\<close> and so is the
  number \<open>NaN\<close>, and the row is then not stored.
\<close>

definition insertTransaction :: "db \<Rightarrow> transaction \<Rightarrow> db" where
  "insertTransaction d t =
     (let ruleResult = applyTransactionRules d (Some (description t)) (Some (category t));
          categoryName = (if res_category ruleResult \<noteq> [] then res_category ruleResult
                          else ''Uncategorized'');
          categoryId0 = category_id_of d categoryName;
          categoryId = (if truthy_int categoryId0 then categoryId0
                        else category_id_of d ''Uncategorized'')
      in case date t of
           None \<Rightarrow> d
         | Some dt \<Rightarrow>
             if amount t = NaN then d
             else d\<lparr> transactions := transactions d @
                       [\<lparr> row_id = txn_seq d + 1, row_import_id = import_id t, row_date = dt,
                          row_description = Some (description t), row_amount = amount t,
                          row_category_id = categoryId,
                          row_ignored = (if shouldIgnore ruleResult then 1 else 0),
                          row_auto_ignored = 0, row_manual_category = 0 \<rparr>],
                     txn_seq := txn_seq d + 1 \<rparr>)"

definition createImportRecord :: "db \<Rightarrow> string \<Rightarrow> string \<Rightarrow> db \<times> int" where
  "createImportRecord d filename accountId =
     (d\<lparr> import_records := import_records d @
           [\<lparr> imp_id = import_seq d + 1, imp_filename = filename, imp_account_id = accountId,
              imp_transaction_count = 0 \<rparr>],
         import_seq := import_seq d + 1 \<rparr>,
      import_seq d + 1)"

definition updateImportCount :: "db \<Rightarrow> int \<Rightarrow> int \<Rightarrow> db" where
  "updateImportCount d importId cnt =
     d\<lparr> import_records :=
          map (\<lambda>r. if imp_id r = importId then r\<lparr> imp_transaction_count := cnt \<rparr> else r)
            (import_records d) \<rparr>"

text \<open>An uploaded file: its name and its text.\<close>

record upload =
  file_name :: string
  file_text :: string

text \<open>\<^verbatim>\<open>text.split('\n').slice(profile.skipRows).join('\n')\<close>, when \<open>skipRows\<close> is positive.\<close>

definition skip_lines :: "nat \<Rightarrow> string \<Rightarrow> string" where
  "skip_lines n txt =
     (if 0 < n then join_with (CHR 0x0A) (drop n (split_on (CHR 0x0A) txt)) else txt)"

text \<open>One turn of \<^verbatim>\<open>for (const row of result.data)\<close>, on the database and the counter
  \<open>fileImported\<close> (\<open>totalImported\<close> grows by the same amount).\<close>

definition import_row_step ::
  "(string \<Rightarrow> (int \<times> int \<times> int) option) \<Rightarrow> profile \<Rightarrow> int \<Rightarrow> string
     \<Rightarrow> db \<times> nat \<Rightarrow> raw_row \<Rightarrow> db \<times> nat" where
  "import_row_step dateParse p importId effectiveDateFormat acc row =
     (case acc of (d, fileImported) \<Rightarrow>
        (case mapTransaction dateParse row p importId effectiveDateFormat of
           None \<Rightarrow> (d, fileImported)
         | Some t \<Rightarrow> (insertTransaction d t, fileImported + 1)))"

definition import_rows ::
  "(string \<Rightarrow> (int \<times> int \<times> int) option) \<Rightarrow> profile \<Rightarrow> int \<Rightarrow> string
     \<Rightarrow> db \<Rightarrow> raw_row list \<Rightarrow> db \<times> nat" where
  "import_rows dateParse p importId effectiveDateFormat d rows =
     foldl (import_row_step dateParse p importId effectiveDateFormat) (d, 0) rows"

text \<open>One turn of the loop over the uploaded files.  \<open>papa txt header\<close> stands for
  \<^verbatim>\<open>Papa.parse(txt, {header: header, skipEmptyLines: true}).data\<close>, the rows found by the
  CSV library.\<close>

definition import_file ::
  "(string \<Rightarrow> (int \<times> int \<times> int) option) \<Rightarrow> (string \<Rightarrow> bool \<Rightarrow> raw_row list) \<Rightarrow> profile
     \<Rightarrow> string \<Rightarrow> string \<Rightarrow> db \<times> nat \<Rightarrow> upload \<Rightarrow> db \<times> nat" where
  "import_file dateParse papa p accountId effectiveDateFormat acc file =
     (case acc of (d, totalImported) \<Rightarrow>
        (let (d1, importId) = createImportRecord d (file_name file) accountId;
             processedText = skip_lines (skipRows p) (file_text file);
             rows = papa processedText (hasHeader p);
             (d2, fileImported) = import_rows dateParse p importId effectiveDateFormat d1 rows
         in (updateImportCount d2 importId (int fileImported), totalImported + fileImported)))"

datatype message = Msg_error string | Msg_success string

text \<open>
  \<open>processUploadedFiles()\<close>: the profile, the account and the date format of the form, and
  the uploaded files.  The function returns no value: what it leaves is the database and
  the message it shows.  Reading a file and parsing it are taken to succeed (the \<open>catch\<close>
  branch, which shows an error message, is not modelled).
\<close>

definition processUploadedFiles ::
  "(string \<Rightarrow> (int \<times> int \<times> int) option) \<Rightarrow> (string \<Rightarrow> bool \<Rightarrow> raw_row list) \<Rightarrow> profile
     \<Rightarrow> string \<Rightarrow> string \<Rightarrow> upload list \<Rightarrow> db \<Rightarrow> db \<times> message" where
  "processUploadedFiles dateParse papa p accountId dateFormat' uploadedFiles d =
     (let effectiveDateFormat =
            (if dateFormat' \<noteq> [] then dateFormat'
             else if dateFormat p \<noteq> [] then dateFormat p else ''auto'')
      in if accountId = [] then (d, Msg_error ''Please select an account'')
         else
           (let (d', totalImported) =
                  foldl (import_file dateParse papa p accountId effectiveDateFormat) (d, 0)
                    uploadedFiles
            in (d', Msg_success (''Imported '' @ String_of_int (int totalImported)
                      @ '' transactions from '' @ String_of_int (int (length uploadedFiles))
                      @ '' file(s)''))))"

section \<open>Re-applying the rules to stored transactions\<close>

text \<open>\<^verbatim>\<open>UPDATE transactions SET ignored = 1 WHERE id = ?\<close> and
  \<^verbatim>\<open>UPDATE transactions SET category_id = ? WHERE id = ?\<close>.\<close>

definition set_ignored :: "db \<Rightarrow> int \<Rightarrow> db" where
  "set_ignored d transId =
     d\<lparr> transactions :=
          map (\<lambda>t. if row_id t = transId then t\<lparr> row_ignored := 1 \<rparr> else t) (transactions d) \<rparr>"

definition set_category :: "db \<Rightarrow> int \<Rightarrow> int \<Rightarrow> db" where
  "set_category d newCategoryId transId =
     d\<lparr> transactions :=
          map (\<lambda>t. if row_id t = transId then t\<lparr> row_category_id := Some newCategoryId \<rparr> else t)
            (transactions d) \<rparr>"

text \<open>A row of the query over the stored transactions:
  \<open>(id, description, category_id, category_name, manual_category)\<close>.\<close>

type_synonym txn_view = "int \<times> string option \<times> int option \<times> string option \<times> int"

definition select_transactions :: "db \<Rightarrow> txn_view list" where
  "select_transactions d =
     map (\<lambda>t. (row_id t, row_description t, row_category_id t,
                category_name_of d (row_category_id t), row_manual_category t))
       (transactions d)"

record reapply_state =
  rs_db :: db
  ignoredCount :: nat
  categorizedCount :: nat
  skippedManual :: nat

text \<open>\<^verbatim>\<open>row[1] || ''\<close>.\<close>

definition or_empty :: "string option \<Rightarrow> string" where
  "or_empty v = (if truthy_str v then the v else [])"

text \<open>The callback of \<^verbatim>\<open>transResult[0].values.forEach(row => ...)\<close>.\<close>

definition reapply_step :: "reapply_state \<Rightarrow> txn_view \<Rightarrow> reapply_state" where
  "reapply_step st row =
     (case row of (transId, descr0, cid, currentCategoryName, manualCategory) \<Rightarrow>
        if manualCategory = 1 then st\<lparr> skippedManual := skippedManual st + 1 \<rparr>
        else
          (let descr = or_empty descr0;
               ruleResult = applyTransactionRules (rs_db st) (Some descr) currentCategoryName;
               st1 = (if shouldIgnore ruleResult
                      then st\<lparr> rs_db := set_ignored (rs_db st) transId,
                               ignoredCount := ignoredCount st + 1 \<rparr>
                      else st)
           in if Some (res_category ruleResult) \<noteq> currentCategoryName then
                (let newCategoryId = category_id_of (rs_db st1) (res_category ruleResult)
                 in if truthy_int newCategoryId
                    then st1\<lparr> rs_db := set_category (rs_db st1) (the newCategoryId) transId,
                              categorizedCount := categorizedCount st1 + 1 \<rparr>
                    else st1)
              else st1))"

text \<open>\<open>applyRulesToExisting()\<close>; \<open>confirmed\<close> is the answer to the \<open>confirm\<close> dialog.\<close>

definition applyRulesToExisting :: "bool \<Rightarrow> db \<Rightarrow> reapply_state" where
  "applyRulesToExisting confirmed d =
     (let st0 = \<lparr> rs_db = d, ignoredCount = 0, categorizedCount = 0, skippedManual = 0 \<rparr>
      in if \<not> confirmed then st0
         else if length (filter (\<lambda>r. enabled r = 1) (transaction_rules d)) = 0 then st0
         else foldl reapply_step st0 (select_transactions d))"

section \<open>Notions used to state the properties\<close>






text \<open>The profile of the specification's end-to-end example: no header, one amount
  column.\<close>

definition single_profile :: profile where
  "single_profile = \<lparr> hasHeader = False, skipRows = 0, dateColumn = ''0'',
      descriptionColumn = ''1'', amountColumn = ''2'', creditColumn = [], debitColumn = [],
      dateFormat = ''DD/MM/YYYY'' \<rparr>"

definition no_dateParse :: "string \<Rightarrow> (int \<times> int \<times> int) option" where
  "no_dateParse s = None"



text \<open>A rule row of the query, for the examples.\<close>

definition view :: "string \<Rightarrow> string \<Rightarrow> string option \<Rightarrow> int \<Rightarrow> rule_view" where
  "view kw act cv cs =
     \<lparr> rv_keyword = kw, rv_action = act, rv_category = cv, rv_case_sensitive = cs \<rparr>"

text \<open>A rule of the list fills the ignore slot, or the category slot, for a description.\<close>

definition ignore_hit :: "string \<Rightarrow> rule_view \<Rightarrow> bool" where
  "ignore_hit descr rv = (rule_matches rv descr \<and> rv_action rv = ''ignore'')"

definition category_hit :: "string \<Rightarrow> rule_view \<Rightarrow> bool" where
  "category_hit descr rv =
     (rule_matches rv descr \<and> rv_action rv = ''categorize'' \<and> truthy_str (rv_category rv))"

definition example_views :: "rule_view list" where
  "example_views =
     [view ''OUT'' ''ignore'' None 0, view ''ATM'' ''categorize'' None 0,
      view ''TRANSFER'' ''categorize'' (Some ''Bank'') 0,
      view ''OUT'' ''categorize'' (Some ''Other'') 0]"

text \<open>The sort key of \<^verbatim>\<open>ORDER BY tr.priority DESC, tr.id ASC\<close>, the query row of a rule, and
  the enabled rules in query order.\<close>

definition rule_key :: "rule_row \<Rightarrow> int \<times> int" where
  "rule_key r = (- priority r, rule_id r)"

definition rule_view_of :: "db \<Rightarrow> rule_row \<Rightarrow> rule_view" where
  "rule_view_of d r =
     \<lparr> rv_keyword = keyword r, rv_action = action r,
       rv_category = category_name_of d (category_value r),
       rv_case_sensitive = case_sensitive r \<rparr>"

definition ordered_rules :: "rule_row list \<Rightarrow> rule_row list" where
  "ordered_rules rs = sort_key rule_key (filter (\<lambda>r. enabled r = 1) rs)"

text \<open>Two enabled \<open>categorize\<close> rules for the same keyword, with priorities 5 and 10, and a
  database with three categories.\<close>

definition rule5 :: rule_row where
  "rule5 = \<lparr> rule_id = 1, keyword = ''COFFEE'', action = ''categorize'', category_value = Some 2,
             case_sensitive = 0, enabled = 1, priority = 5 \<rparr>"

definition rule10 :: rule_row where
  "rule10 = \<lparr> rule_id = 2, keyword = ''coffee'', action = ''categorize'',
              category_value = Some 3, case_sensitive = 0, enabled = 1, priority = 10 \<rparr>"

definition example_db :: "rule_row list \<Rightarrow> db" where
  "example_db rs =
     \<lparr> categories = [\<lparr> cat_id = 1, cat_name = ''Uncategorized'' \<rparr>,
                     \<lparr> cat_id = 2, cat_name = ''Dining'' \<rparr>,
                     \<lparr> cat_id = 3, cat_name = ''Coffee'' \<rparr>],
       transaction_rules = rs, transactions = [], import_records = [],
       txn_seq = 0, import_seq = 0 \<rparr>"

text \<open>A stored transaction after the current rules have been applied to it: it is ignored
  when an ignore rule matches, and takes the category the rules give when that differs
  from its own and is in the catalogue.\<close>

definition reapplied :: "db \<Rightarrow> txn_row \<Rightarrow> txn_row" where
  "reapplied d t =
     (let currentCategoryName = category_name_of d (row_category_id t);
          ruleResult = applyTransactionRules d
                         (Some (or_empty (row_description t)))
                         currentCategoryName;
          newCategoryId = category_id_of d (res_category ruleResult)
      in t\<lparr> row_ignored := (if shouldIgnore ruleResult then 1 else row_ignored t),
            row_category_id :=
              (if Some (res_category ruleResult) \<noteq> currentCategoryName \<and> truthy_int newCategoryId
               then newCategoryId else row_category_id t) \<rparr>)"

text \<open>What one turn of the loop, for the query row \<open>v\<close>, does to the stored row \<open>t\<close>.\<close>

definition step_on :: "db \<Rightarrow> txn_view \<Rightarrow> txn_row \<Rightarrow> txn_row" where
  "step_on d v t =
     (case v of (transId, descr0, cid, currentCategoryName, manualCategory) \<Rightarrow>
        if manualCategory = 1 \<or> row_id t \<noteq> transId then t
        else
          (let ruleResult = applyTransactionRules d
                              (Some (or_empty descr0))
                              currentCategoryName;
               t1 = (if shouldIgnore ruleResult then t\<lparr> row_ignored := 1 \<rparr> else t);
               newCategoryId = category_id_of d (res_category ruleResult)
           in if Some (res_category ruleResult) \<noteq> currentCategoryName \<and> truthy_int newCategoryId
              then t1\<lparr> row_category_id := Some (the newCategoryId) \<rparr> else t1))"

definition txn_view_of :: "db \<Rightarrow> txn_row \<Rightarrow> txn_view" where
  "txn_view_of d t =
     (row_id t, row_description t, row_category_id t,
      category_name_of d (row_category_id t), row_manual_category t)"

text \<open>A stored transaction, with and without the manual-category flag.\<close>

definition stored :: "int \<Rightarrow> int \<Rightarrow> txn_row" where
  "stored i manual =
     \<lparr> row_id = i, row_import_id = 1, row_date = ''2024-01-15'',
       row_description = Some ''COFFEE SHOP'', row_amount = Fin (- 4),
       row_category_id = Some 1, row_ignored = 0, row_auto_ignored = 0,
       row_manual_category = manual \<rparr>"

definition stored_db :: db where
  "stored_db = (example_db [rule5, rule10])\<lparr> transactions := [stored 1 1, stored 2 0] \<rparr>"







text \<open>A CSV library that finds the given rows, and an uploaded file.\<close>

definition papa_const :: "raw_row list \<Rightarrow> string \<Rightarrow> bool \<Rightarrow> raw_row list" where
  "papa_const rows txt header = rows"

definition example_file :: upload where
  "example_file = \<lparr> file_name = ''a.csv'', file_text = ''15/01/2024,SALARY,2000.00'' \<rparr>"






text \<open>
  The explicit formats, and the strings written in a format.  A pair of a string and an
  explicit format is taken as valid when the string, trimmed, has the three fields of the
  format: for the numeric formats, three unsigned decimal numbers between the format's
  separators; for the two \<open>DD-Mon\<close> formats, a match of the pattern with the name of a
  month and a day that is not zero.  Every string that denotes a calendar date in the
  format is of this kind.
\<close>

definition explicit_formats :: "string list" where
  "explicit_formats =
     [''YYYY-MM-DD'', ''DD/MM/YYYY'', ''MM/DD/YYYY'', ''DD-MM-YYYY'', ''MM-DD-YYYY'',
      ''DD/MM/YY'', ''MM/DD/YY'', ''DD-Mon-YY'', ''DD-Mon-YYYY'']"

definition number_field :: "string \<Rightarrow> bool" where
  "number_field x = (x \<noteq> [] \<and> list_all is_digit x)"

definition valid_pair :: "string \<Rightarrow> string \<Rightarrow> bool" where
  "valid_pair s f =
     (f \<in> set explicit_formats \<and>
      (if f = ''DD-Mon-YY'' \<or> f = ''DD-Mon-YYYY'' then
         (case match_mon (trim s) of
            None \<Rightarrow> False
          | Some (d, m, y) \<Rightarrow> digits_val d \<noteq> 0 \<and> MONTHS (toLowerCase_ascii m) \<noteq> None)
       else
         (let fields = split_on (if CHR ''/'' \<in> set f then CHR ''/'' else CHR ''-'') (trim s)
          in length fields = 3 \<and> list_all number_field fields)))"


section \<open>Properties\<close>

subsection \<open>Amounts\<close>













subsection \<open>Word-boundary matching\<close>













subsection \<open>The two slots of rule resolution\<close>

lemma apply_rule_done:
  "ignoreRuleMatched st \<Longrightarrow> categoryRuleMatched st \<Longrightarrow> apply_rule rv st = st"
  by (simp add: apply_rule_def)

lemma scan_all_done:
  "ignoreRuleMatched st \<Longrightarrow> categoryRuleMatched st \<Longrightarrow> scan_all descr rvs st = st"
  by (induction rvs) (simp_all add: apply_rule_done)

lemma scan_rules_all: "scan_rules descr rvs st = scan_all descr rvs st"
proof (induction rvs arbitrary: st)
  case Nil
  show ?case by simp
next
  case (Cons rv rvs)
  show ?case
  proof (cases "rule_matches rv descr")
    case False
    then show ?thesis by (simp add: Cons.IH)
  next
    case m: True
    let ?st = "apply_rule rv st"
    have step: "scan_rules descr (rv # rvs) st =
        (if ignoreRuleMatched ?st \<and> categoryRuleMatched ?st then ?st
         else scan_rules descr rvs ?st)"
      using m by (simp add: Let_def)
    have all: "scan_all descr (rv # rvs) st = scan_all descr rvs ?st"
      using m by simp
    show ?thesis
    proof (cases "ignoreRuleMatched ?st \<and> categoryRuleMatched ?st")
      case True
      then have "scan_all descr rvs ?st = ?st" by (simp add: scan_all_done)
      then show ?thesis unfolding step all using True by auto
    next
      case False
      then show ?thesis unfolding step all using Cons.IH [of ?st] by auto
    qed
  qed
qed

lemma apply_rule_ignoreRuleMatched:
  "ignoreRuleMatched (apply_rule rv st) = (ignoreRuleMatched st \<or> rv_action rv = ''ignore'')"
  by (auto simp: apply_rule_def)

lemma apply_rule_shouldIgnore:
  "st_shouldIgnore (apply_rule rv st)
     = (st_shouldIgnore st \<or> (\<not> ignoreRuleMatched st \<and> rv_action rv = ''ignore''))"
  by (auto simp: apply_rule_def)

lemma apply_rule_categoryRuleMatched:
  "categoryRuleMatched (apply_rule rv st)
     = (categoryRuleMatched st \<or> (rv_action rv = ''categorize'' \<and> truthy_str (rv_category rv)))"
  by (auto simp: apply_rule_def)

lemma apply_rule_category:
  "st_category (apply_rule rv st)
     = (if \<not> categoryRuleMatched st \<and> rv_action rv = ''categorize'' \<and> truthy_str (rv_category rv)
        then the (rv_category rv) else st_category st)"
  by (auto simp: apply_rule_def)

lemma scan_all_ignoreRuleMatched:
  "ignoreRuleMatched (scan_all descr rvs st)
     = (ignoreRuleMatched st \<or> (\<exists>rv\<in>set rvs. ignore_hit descr rv))"
proof (induction rvs arbitrary: st)
  case Nil
  show ?case by simp
next
  case (Cons rv rvs)
  show ?case
    by (cases "rule_matches rv descr")
       (auto simp: Cons.IH apply_rule_ignoreRuleMatched ignore_hit_def)
qed

lemma scan_all_shouldIgnore:
  "st_shouldIgnore (scan_all descr rvs st)
     = (st_shouldIgnore st \<or> (\<not> ignoreRuleMatched st \<and> (\<exists>rv\<in>set rvs. ignore_hit descr rv)))"
proof (induction rvs arbitrary: st)
  case Nil
  show ?case by simp
next
  case (Cons rv rvs)
  show ?case
    by (cases "rule_matches rv descr")
       (auto simp: Cons.IH apply_rule_ignoreRuleMatched apply_rule_shouldIgnore ignore_hit_def)
qed

lemma scan_all_category:
  "st_category (scan_all descr rvs st)
     = (if categoryRuleMatched st then st_category st
        else case find (category_hit descr) rvs of
               None \<Rightarrow> st_category st | Some rv \<Rightarrow> the (rv_category rv))"
proof (induction rvs arbitrary: st)
  case Nil
  show ?case by simp
next
  case (Cons rv rvs)
  show ?case
  proof (cases "rule_matches rv descr")
    case False
    then have "\<not> category_hit descr rv" by (simp add: category_hit_def)
    then show ?thesis using False by (simp add: Cons.IH)
  next
    case True
    show ?thesis
    proof (cases "category_hit descr rv")
      case hit: True
      then show ?thesis
        using True
        by (simp add: Cons.IH apply_rule_categoryRuleMatched apply_rule_category category_hit_def)
    next
      case miss: False
      then have "\<not> (rv_action rv = ''categorize'' \<and> truthy_str (rv_category rv))"
        using True by (simp add: category_hit_def)
      then show ?thesis
        using True miss
        by (auto simp: Cons.IH apply_rule_categoryRuleMatched apply_rule_category
                 split: option.splits)
    qed
  qed
qed

lemma run_rules_eq:
  "run_rules rvs descr fb =
     \<lparr> shouldIgnore = (\<exists>rv\<in>set rvs. ignore_hit descr rv),
       res_category = (case find (category_hit descr) rvs of
                         None \<Rightarrow> fb | Some rv \<Rightarrow> the (rv_category rv)) \<rparr>"
proof (cases "rvs = []")
  case True
  then show ?thesis by (simp add: run_rules_def)
next
  case False
  let ?st0 = "\<lparr> st_shouldIgnore = False, st_category = fb,
                ignoreRuleMatched = False, categoryRuleMatched = False \<rparr>"
  have 1: "st_shouldIgnore (scan_all descr rvs ?st0) = (\<exists>rv\<in>set rvs. ignore_hit descr rv)"
    by (simp add: scan_all_shouldIgnore)
  have 2: "st_category (scan_all descr rvs ?st0)
      = (case find (category_hit descr) rvs of None \<Rightarrow> fb | Some rv \<Rightarrow> the (rv_category rv))"
    by (simp add: scan_all_category split: option.splits)
  have "run_rules rvs descr fb =
      \<lparr> shouldIgnore = st_shouldIgnore (scan_all descr rvs ?st0),
        res_category = st_category (scan_all descr rvs ?st0) \<rparr>"
    using False by (simp add: run_rules_def scan_rules_all Let_def)
  then show ?thesis by (simp only: 1 2)
qed

lemma run_rules_all_eq: "run_rules_all rvs descr fb = run_rules rvs descr fb"
  by (cases "rvs = []") (simp_all add: run_rules_def run_rules_all_def scan_rules_all)

text \<open>
  C7: for every description and rule list (category names are not empty), rule resolution
  fills two independent slots: \<open>shouldIgnore\<close> is true exactly when some rule with action
  \<open>ignore\<close> matches, and the category is that of the first matching rule with action
  \<open>categorize\<close> and a non-null category, or the fallback when there is none; neither slot
  depends on the other, and the loop without the \<open>break\<close> gives the same result.
\<close>

theorem two_slots:
  "(\<forall>rv\<in>set rvs. rv_category rv \<noteq> Some []) \<longrightarrow>
     run_rules rvs descr fb =
       \<lparr> shouldIgnore = (\<exists>rv\<in>set rvs. rule_matches rv descr \<and> rv_action rv = ''ignore''),
         res_category =
           (case find (\<lambda>rv. rule_matches rv descr \<and> rv_action rv = ''categorize''
                            \<and> rv_category rv \<noteq> None) rvs of
              None \<Rightarrow> fb | Some rv \<Rightarrow> the (rv_category rv)) \<rparr>
     \<and> run_rules_all rvs descr fb = run_rules rvs descr fb"
proof
  assume a: "\<forall>rv\<in>set rvs. rv_category rv \<noteq> Some []"
  have "find (category_hit descr) rvs =
        find (\<lambda>rv. rule_matches rv descr \<and> rv_action rv = ''categorize''
                            \<and> rv_category rv \<noteq> None) rvs"
    using a by (intro find_cong) (auto simp: category_hit_def truthy_str_def split: option.splits)
  then show "run_rules rvs descr fb =
       \<lparr> shouldIgnore = (\<exists>rv\<in>set rvs. rule_matches rv descr \<and> rv_action rv = ''ignore''),
         res_category =
           (case find (\<lambda>rv. rule_matches rv descr \<and> rv_action rv = ''categorize''
                            \<and> rv_category rv \<noteq> None) rvs of
              None \<Rightarrow> fb | Some rv \<Rightarrow> the (rv_category rv)) \<rparr>
     \<and> run_rules_all rvs descr fb = run_rules rvs descr fb"
    by (simp add: run_rules_all_eq run_rules_eq ignore_hit_def)
qed

theorem two_slots_witness:
  "run_rules example_views ''ATM TRANSFER OUT'' ''Uncategorized''
     = \<lparr> shouldIgnore = True, res_category = ''Bank'' \<rparr>
   \<and> run_rules_all example_views ''ATM TRANSFER OUT'' ''Uncategorized''
     = \<lparr> shouldIgnore = True, res_category = ''Bank'' \<rparr>"
proof -
  have h: "\<forall>rv\<in>set example_views. rv_category rv \<noteq> Some []"
    by (simp add: example_views_def view_def)
  have v: "\<lparr> shouldIgnore = (\<exists>rv\<in>set example_views.
                 rule_matches rv ''ATM TRANSFER OUT'' \<and> rv_action rv = ''ignore''),
             res_category =
               (case find (\<lambda>rv. rule_matches rv ''ATM TRANSFER OUT''
                                \<and> rv_action rv = ''categorize'' \<and> rv_category rv \<noteq> None)
                       example_views of
                  None \<Rightarrow> ''Uncategorized'' | Some rv \<Rightarrow> the (rv_category rv)) \<rparr>
           = \<lparr> shouldIgnore = True, res_category = ''Bank'' \<rparr>"
    by code_simp
  from two_slots [of example_views "''ATM TRANSFER OUT''" "''Uncategorized''"] h v
  show ?thesis by simp
qed

subsection \<open>Rule order\<close>

lemma select_rules_alt:
  "select_rules d = map (rule_view_of d) (ordered_rules (transaction_rules d))"
  by (simp add: select_rules_def ordered_rules_def rule_view_of_def [abs_def] rule_key_def [abs_def])

lemma rule_view_of_rules [simp]:
  "rule_view_of (d\<lparr> transaction_rules := rs \<rparr>) = rule_view_of d"
  by (simp add: rule_view_of_def fun_eq_iff category_name_of_def split: option.splits)

lemma ordered_rules_perm:
  assumes "distinct (map rule_id rs)" "mset rs' = mset rs"
  shows "ordered_rules rs' = ordered_rules rs"
proof -
  let ?P = "\<lambda>r. enabled r = 1"
  have set: "set rs' = set rs" using assms(2) by (rule mset_eq_setD)
  have "inj_on rule_id (set rs)" using assms(1) by (simp add: distinct_map)
  then have "inj_on rule_key (set rs)"
    by (auto simp: inj_on_def rule_key_def)
  then have inj: "inj_on rule_key (set (filter ?P rs'))"
    using set by (auto simp: inj_on_def)
  have m: "mset (filter ?P rs') = mset (sort_key rule_key (filter ?P rs))"
    using assms(2) by simp
  have "sort_key rule_key (filter ?P rs') = sort_key rule_key (filter ?P rs)"
    by (rule sort_key_inj_key_eq [OF m inj]) simp
  then show ?thesis by (simp add: ordered_rules_def)
qed

lemma ordered_rules_enabled:
  "ordered_rules (filter (\<lambda>r. enabled r = 1) rs) = ordered_rules rs"
  by (simp add: ordered_rules_def)

lemma find_sorted_min:
  assumes "sorted (map f xs)" "x \<in> set xs" "Q x"
    and "\<forall>y\<in>set xs. Q y \<and> y \<noteq> x \<longrightarrow> f x < f y"
  shows "find Q xs = Some x"
  using assms
proof (induction xs)
  case Nil
  then show ?case by simp
next
  case (Cons h xs)
  show ?case
  proof (cases "h = x")
    case True
    then show ?thesis using Cons.prems(3) by simp
  next
    case False
    then have in_tl: "x \<in> set xs" using Cons.prems(2) by simp
    have "f h \<le> f x" using Cons.prems(1) in_tl by simp
    then have "\<not> Q h" using Cons.prems(4) False by force
    moreover have "find Q xs = Some x"
      using Cons.IH Cons.prems in_tl by simp
    ultimately show ?thesis by simp
  qed
qed

lemma find_map: "find Q (map g xs) = map_option g (find (\<lambda>x. Q (g x)) xs)"
  by (induction xs) simp_all

lemma highest_priority_wins:
  assumes r: "r \<in> set (transaction_rules d)" "enabled r = 1"
    and hit: "category_hit descr (rule_view_of d r)"
    and ne: "descr \<noteq> []"
    and least: "\<forall>r'\<in>set (transaction_rules d).
        r' \<noteq> r \<and> enabled r' = 1 \<and> category_hit descr (rule_view_of d r')
        \<longrightarrow> priority r' < priority r \<or> (priority r' = priority r \<and> rule_id r < rule_id r')"
  shows "res_category (applyTransactionRules d (Some descr) dc) = the (rv_category (rule_view_of d r))"
proof -
  let ?xs = "ordered_rules (transaction_rules d)"
  let ?Q = "\<lambda>x. category_hit descr (rule_view_of d x)"
  have set: "set ?xs = {x \<in> set (transaction_rules d). enabled x = 1}"
    by (auto simp: ordered_rules_def)
  have sorted: "sorted (map rule_key ?xs)" by (simp add: ordered_rules_def)
  have mem: "r \<in> set ?xs" using r set by simp
  have least': "\<forall>y\<in>set ?xs. ?Q y \<and> y \<noteq> r \<longrightarrow> rule_key r < rule_key y"
    using least set by (auto simp: rule_key_def less_prod_def)
  have "find ?Q ?xs = Some r"
    by (rule find_sorted_min [OF sorted mem hit least'])
  then have f: "find (category_hit descr) (select_rules d) = Some (rule_view_of d r)"
    by (simp add: select_rules_alt find_map)
  show ?thesis
    using ne f by (simp add: applyTransactionRules_def truthy_str_def run_rules_eq)
qed

text \<open>
  C8: only enabled rules are considered (removing the others changes nothing), and they
  are applied by priority descending, then id ascending: with distinct rule ids the
  result does not depend on the order in which the rules are stored, and a matching
  enabled \<open>categorize\<close> rule with a category that precedes every other such rule in that
  order (higher priority, or equal priority and lower id) gives the category; so of two
  matching rules with priorities 5 and 10, the one with priority 10 wins.
\<close>

theorem rule_order:
  "(distinct (map rule_id rs) \<and> mset rs' = mset rs \<longrightarrow>
      applyTransactionRules (d\<lparr> transaction_rules := rs' \<rparr>) descr dc
        = applyTransactionRules (d\<lparr> transaction_rules := rs \<rparr>) descr dc)
   \<and> applyTransactionRules
        (d\<lparr> transaction_rules := filter (\<lambda>r. enabled r = 1) (transaction_rules d) \<rparr>) descr dc
        = applyTransactionRules d descr dc
   \<and> (r \<in> set (transaction_rules d) \<and> enabled r = 1 \<and> dtext \<noteq> []
        \<and> category_hit dtext (rule_view_of d r)
        \<and> (\<forall>r'\<in>set (transaction_rules d).
              r' \<noteq> r \<and> enabled r' = 1 \<and> category_hit dtext (rule_view_of d r')
              \<longrightarrow> priority r' < priority r
                  \<or> (priority r' = priority r \<and> rule_id r < rule_id r'))
      \<longrightarrow> res_category (applyTransactionRules d (Some dtext) dc)
            = the (rv_category (rule_view_of d r)))"
proof (intro conjI impI)
  assume "distinct (map rule_id rs) \<and> mset rs' = mset rs"
  then have "ordered_rules rs' = ordered_rules rs"
    using ordered_rules_perm by blast
  then have "select_rules (d\<lparr> transaction_rules := rs' \<rparr>)
        = select_rules (d\<lparr> transaction_rules := rs \<rparr>)"
    by (simp add: select_rules_alt)
  then show "applyTransactionRules (d\<lparr> transaction_rules := rs' \<rparr>) descr dc
        = applyTransactionRules (d\<lparr> transaction_rules := rs \<rparr>) descr dc"
    by (simp only: applyTransactionRules_def)
next
  show "applyTransactionRules
        (d\<lparr> transaction_rules := filter (\<lambda>r. enabled r = 1) (transaction_rules d) \<rparr>) descr dc
        = applyTransactionRules d descr dc"
  proof -
    have "select_rules
            (d\<lparr> transaction_rules := filter (\<lambda>r. enabled r = 1) (transaction_rules d) \<rparr>)
          = select_rules d"
      by (simp add: select_rules_alt ordered_rules_enabled)
    then show ?thesis by (simp only: applyTransactionRules_def)
  qed
next
  assume "r \<in> set (transaction_rules d) \<and> enabled r = 1 \<and> dtext \<noteq> []
        \<and> category_hit dtext (rule_view_of d r)
        \<and> (\<forall>r'\<in>set (transaction_rules d).
              r' \<noteq> r \<and> enabled r' = 1 \<and> category_hit dtext (rule_view_of d r')
              \<longrightarrow> priority r' < priority r
                  \<or> (priority r' = priority r \<and> rule_id r < rule_id r'))"
  then show "res_category (applyTransactionRules d (Some dtext) dc)
            = the (rv_category (rule_view_of d r))"
    using highest_priority_wins [of r d dtext dc] by blast
qed

theorem rule_order_witness:
  "res_category (applyTransactionRules (example_db [rule5, rule10]) (Some ''COFFEE SHOP'') None)
     = ''Coffee''
   \<and> applyTransactionRules (example_db [rule10, rule5]) (Some ''COFFEE SHOP'') None
     = applyTransactionRules (example_db [rule5, rule10]) (Some ''COFFEE SHOP'') None"
proof -
  let ?d = "example_db [rule5, rule10]"
  have ne: "rule5 \<noteq> rule10" by (simp add: rule5_def rule10_def)
  have h1: "distinct (map rule_id [rule5, rule10]) \<and> mset [rule10, rule5] = mset [rule5, rule10]"
    by (simp add: rule5_def rule10_def)
  have rs: "transaction_rules ?d = [rule5, rule10]" by (simp add: example_db_def)
  have hit: "category_hit ''COFFEE SHOP'' (rule_view_of ?d rule10)"
    by code_simp
  have pr: "priority rule5 < priority rule10 \<and> enabled rule10 = 1"
    by (simp add: rule5_def rule10_def)
  have cat: "the (rv_category (rule_view_of ?d rule10)) = ''Coffee''"
    by code_simp
  have h3: "rule10 \<in> set (transaction_rules ?d) \<and> enabled rule10 = 1 \<and> ''COFFEE SHOP'' \<noteq> []
        \<and> category_hit ''COFFEE SHOP'' (rule_view_of ?d rule10)
        \<and> (\<forall>r'\<in>set (transaction_rules ?d).
              r' \<noteq> rule10 \<and> enabled r' = 1 \<and> category_hit ''COFFEE SHOP'' (rule_view_of ?d r')
              \<longrightarrow> priority r' < priority rule10
                  \<or> (priority r' = priority rule10 \<and> rule_id rule10 < rule_id r'))"
    using hit pr by (simp add: rs)
  have upd: "?d\<lparr> transaction_rules := [rule10, rule5] \<rparr> = example_db [rule10, rule5]"
       "?d\<lparr> transaction_rules := [rule5, rule10] \<rparr> = ?d"
    by (simp_all add: example_db_def)
  from rule_order [where rs = "[rule5, rule10]" and rs' = "[rule10, rule5]" and d = ?d
      and descr = "Some ''COFFEE SHOP''" and dc = None and r = rule10 and dtext = "''COFFEE SHOP''"]
    h1 h3
  have "applyTransactionRules (?d\<lparr> transaction_rules := [rule10, rule5] \<rparr>) (Some ''COFFEE SHOP'') None
        = applyTransactionRules (?d\<lparr> transaction_rules := [rule5, rule10] \<rparr>) (Some ''COFFEE SHOP'') None
      \<and> res_category (applyTransactionRules ?d (Some ''COFFEE SHOP'') None)
        = the (rv_category (rule_view_of ?d rule10))"
    by blast
  then show ?thesis by (simp add: upd cat)
qed

subsection \<open>Re-applying the rules\<close>

lemma same_config_rules:
  assumes "categories d' = categories d" "transaction_rules d' = transaction_rules d"
  shows "applyTransactionRules d' = applyTransactionRules d"
    and "category_id_of d' = category_id_of d"
    and "category_name_of d' = category_name_of d"
proof -
  show n: "category_name_of d' = category_name_of d"
    using assms by (simp add: fun_eq_iff category_name_of_def split: option.splits)
  show "category_id_of d' = category_id_of d"
    using assms by (simp add: fun_eq_iff category_id_of_def)
  have "select_rules d' = select_rules d"
    using assms n by (simp add: select_rules_def)
  then show "applyTransactionRules d' = applyTransactionRules d"
    by (simp add: fun_eq_iff applyTransactionRules_def Let_def)
qed

lemma step_on_same_config:
  assumes "categories d' = categories d" "transaction_rules d' = transaction_rules d"
  shows "step_on d' = step_on d"
  using same_config_rules [OF assms] by (simp add: fun_eq_iff step_on_def)

lemma set_ignored_config [simp]:
  "categories (set_ignored d i) = categories d"
  "transaction_rules (set_ignored d i) = transaction_rules d"
  by (simp_all add: set_ignored_def)

lemma set_category_config [simp]:
  "categories (set_category d c i) = categories d"
  "transaction_rules (set_category d c i) = transaction_rules d"
  by (simp_all add: set_category_def)

lemma reapply_step_config:
  "categories (rs_db (reapply_step st v)) = categories (rs_db st)
   \<and> transaction_rules (rs_db (reapply_step st v)) = transaction_rules (rs_db st)"
  by (cases v) (simp add: reapply_step_def Let_def)

lemma reapply_step_db:
  "rs_db (reapply_step st (transId, descr0, cid, cur, manual)) =
     (let d = rs_db st;
          r = applyTransactionRules d (Some (or_empty descr0)) cur;
          nid = category_id_of d (res_category r);
          d1 = (if shouldIgnore r then set_ignored d transId else d)
      in if manual = 1 then d
         else if Some (res_category r) \<noteq> cur \<and> truthy_int nid
              then set_category d1 (the nid) transId else d1)"
proof -
  define d where "d = rs_db st"
  define r where "r = applyTransactionRules d (Some (or_empty descr0)) cur"
  define nid where "nid = category_id_of d (res_category r)"
  have id: "category_id_of (set_ignored d transId) = category_id_of d"
    by (rule same_config_rules) simp_all
  have "rs_db (reapply_step st (transId, descr0, cid, cur, manual)) =
     (if manual = 1 then d
      else if Some (res_category r) \<noteq> cur \<and> truthy_int nid
           then set_category (if shouldIgnore r then set_ignored d transId else d) (the nid) transId
           else (if shouldIgnore r then set_ignored d transId else d))"
  proof (cases "manual = 1")
    case True
    then show ?thesis by (simp add: reapply_step_def d_def)
  next
    case m: False
    show ?thesis
    proof (cases "shouldIgnore r")
      case True
      then show ?thesis
        using m unfolding reapply_step_def
        by (simp add: Let_def d_def [symmetric] r_def [symmetric] id nid_def [symmetric])
    next
      case False
      then show ?thesis
        using m unfolding reapply_step_def
        by (simp add: Let_def d_def [symmetric] r_def [symmetric] nid_def [symmetric])
    qed
  qed
  then show ?thesis by (simp add: Let_def d_def r_def nid_def)
qed

lemma step_on_alt:
  "step_on d (transId, descr0, cid, cur, manual) t =
     (let r = applyTransactionRules d (Some (or_empty descr0)) cur;
          nid = category_id_of d (res_category r);
          t1 = (if shouldIgnore r \<and> row_id t = transId then t\<lparr> row_ignored := 1 \<rparr> else t)
      in if manual = 1 then t
         else if Some (res_category r) \<noteq> cur \<and> truthy_int nid \<and> row_id t = transId
              then t1\<lparr> row_category_id := Some (the nid) \<rparr> else t1)"
  by (simp add: step_on_def Let_def)

lemma reapply_step_transactions:
  "transactions (rs_db (reapply_step st v)) = map (step_on (rs_db st) v) (transactions (rs_db st))"
proof -
  obtain transId descr0 cid cur manual where v: "v = (transId, descr0, cid, cur, manual)"
    by (cases v) auto
  define d where "d = rs_db st"
  define r where "r = applyTransactionRules d (Some (or_empty descr0)) cur"
  define nid where "nid = category_id_of d (res_category r)"
  have step: "step_on d v t =
     (if manual = 1 then t
      else if Some (res_category r) \<noteq> cur \<and> truthy_int nid \<and> row_id t = transId
           then (if shouldIgnore r \<and> row_id t = transId then t\<lparr> row_ignored := 1 \<rparr> else t)
                  \<lparr> row_category_id := Some (the nid) \<rparr>
           else (if shouldIgnore r \<and> row_id t = transId then t\<lparr> row_ignored := 1 \<rparr> else t))"
    for t
    unfolding v step_on_alt by (simp add: Let_def r_def nid_def)
  have db: "rs_db (reapply_step st v) =
     (if manual = 1 then d
      else if Some (res_category r) \<noteq> cur \<and> truthy_int nid
           then set_category (if shouldIgnore r then set_ignored d transId else d) (the nid) transId
           else (if shouldIgnore r then set_ignored d transId else d))"
    unfolding v reapply_step_db by (simp add: Let_def d_def r_def nid_def)
  have "transactions (rs_db (reapply_step st v)) = map (step_on d v) (transactions d)"
  proof (cases "manual = 1")
    case True
    then show ?thesis by (simp add: db step map_idI)
  next
    case m: False
    show ?thesis
    proof (cases "Some (res_category r) \<noteq> cur \<and> truthy_int nid")
      case c: True
      show ?thesis
      proof (cases "shouldIgnore r")
        case True
        then show ?thesis using m c
          by (simp add: db set_category_def set_ignored_def) (auto simp: step)
      next
        case False
        then show ?thesis using m c
          by (simp add: db set_category_def) (auto simp: step)
      qed
    next
      case c: False
      show ?thesis
      proof (cases "shouldIgnore r")
        case True
        then show ?thesis using m c
          by (simp add: db set_ignored_def) (auto simp: step)
      next
        case False
        then have "map (step_on d v) (transactions d) = transactions d"
          using m c by (intro map_idI) (auto simp: step)
        then show ?thesis using False m c by (auto simp: db)
      qed
    qed
  qed
  then show ?thesis by (simp add: d_def)
qed

lemma foldl_reapply:
  assumes "categories (rs_db st) = categories d" "transaction_rules (rs_db st) = transaction_rules d"
  shows "transactions (rs_db (foldl reapply_step st vs))
           = map (\<lambda>t. fold (step_on d) vs t) (transactions (rs_db st))"
  using assms
proof (induction vs arbitrary: st)
  case Nil
  show ?case by simp
next
  case (Cons v vs)
  let ?st = "reapply_step st v"
  have c: "categories (rs_db ?st) = categories d" "transaction_rules (rs_db ?st) = transaction_rules d"
    using reapply_step_config [of st v] Cons.prems by simp_all
  have s: "step_on (rs_db st) = step_on d"
    using Cons.prems by (rule step_on_same_config)
  have "transactions (rs_db (foldl reapply_step ?st vs))
          = map (\<lambda>t. fold (step_on d) vs t) (transactions (rs_db ?st))"
    using c by (rule Cons.IH)
  then show ?case by (simp add: reapply_step_transactions s comp_def)
qed

lemma step_on_id [simp]: "row_id (step_on d v t) = row_id t"
  by (cases v) (simp add: step_on_def Let_def)

lemma step_on_other: "fst v \<noteq> row_id t \<Longrightarrow> step_on d v t = t"
  by (cases v) (auto simp: step_on_def)

lemma fold_step_on_others:
  "\<forall>v\<in>set vs. fst v \<noteq> row_id t \<Longrightarrow> fold (step_on d) vs t = t"
  by (induction vs) (simp_all add: step_on_other)

lemma fold_step_on_own:
  assumes "distinct (map row_id ts)" "t \<in> set ts"
  shows "fold (step_on d) (map (txn_view_of d0) ts) t = step_on d (txn_view_of d0 t) t"
  using assms
proof (induction ts)
  case Nil
  then show ?case by simp
next
  case (Cons a ts)
  have fst_view: "fst (txn_view_of d0 x) = row_id x" for x by (simp add: txn_view_of_def)
  show ?case
  proof (cases "t = a")
    case True
    have "row_id x \<noteq> row_id a" if "x \<in> set ts" for x
      using Cons.prems(1) that by (auto simp: image_iff)
    then have "\<forall>v\<in>set (map (txn_view_of d0) ts). fst v \<noteq> row_id (step_on d (txn_view_of d0 a) a)"
      by (simp add: fst_view)
    then show ?thesis using True by (simp add: fold_step_on_others)
  next
    case False
    then have t: "t \<in> set ts" using Cons.prems(2) by simp
    then have "row_id a \<noteq> row_id t" using Cons.prems(1) by auto
    then have "step_on d (txn_view_of d0 a) t = t"
      by (intro step_on_other) (simp add: fst_view)
    then show ?thesis using Cons.IH t Cons.prems(1) by simp
  qed
qed

lemma step_on_own:
  "step_on d (txn_view_of d t) t = (if row_manual_category t = 1 then t else reapplied d t)"
proof -
  have i: "truthy_int x \<Longrightarrow> Some (the x) = x" for x
    by (cases x) (simp_all add: truthy_int_def)
  show ?thesis
    by (auto simp: step_on_def txn_view_of_def reapplied_def Let_def i)
qed

lemma reapply_all:
  assumes "distinct (map row_id (transactions d))"
  shows "transactions (rs_db (applyRulesToExisting confirmed d)) =
     map (\<lambda>t. if row_manual_category t = 1 then t
              else if confirmed \<and> (\<exists>r\<in>set (transaction_rules d). enabled r = 1)
                   then reapplied d t else t)
         (transactions d)"
proof (cases "confirmed \<and> (\<exists>r\<in>set (transaction_rules d). enabled r = 1)")
  case False
  then have "applyRulesToExisting confirmed d =
      \<lparr> rs_db = d, ignoredCount = 0, categorizedCount = 0, skippedManual = 0 \<rparr>"
    by (auto simp: applyRulesToExisting_def Let_def filter_empty_conv)
  moreover have "map (\<lambda>t. if row_manual_category t = 1 then t
              else if confirmed \<and> (\<exists>r\<in>set (transaction_rules d). enabled r = 1)
                   then reapplied d t else t) (transactions d) = transactions d"
    using False by (intro map_idI) auto
  ultimately show ?thesis by simp
next
  case True
  let ?st0 = "\<lparr> rs_db = d, ignoredCount = 0, categorizedCount = 0, skippedManual = 0 \<rparr>"
  have run: "applyRulesToExisting confirmed d = foldl reapply_step ?st0 (select_transactions d)"
    using True by (auto simp: applyRulesToExisting_def Let_def filter_empty_conv)
  have sel: "select_transactions d = map (txn_view_of d) (transactions d)"
    by (simp add: select_transactions_def txn_view_of_def [abs_def])
  have "transactions (rs_db (foldl reapply_step ?st0 (select_transactions d)))
      = map (\<lambda>t. fold (step_on d) (select_transactions d) t) (transactions d)"
    using foldl_reapply [of ?st0 d] by simp
  also have "\<dots> = map (\<lambda>t. step_on d (txn_view_of d t) t) (transactions d)"
    using assms by (intro map_cong) (simp_all add: sel fold_step_on_own)
  finally have fin: "transactions (rs_db (foldl reapply_step ?st0 (select_transactions d)))
      = map (\<lambda>t. step_on d (txn_view_of d t) t) (transactions d)" .
  show ?thesis unfolding run fin using True by (simp add: step_on_own)
qed

text \<open>
  C5: with distinct transaction ids (\<open>id\<close> is the primary key), re-applying the rules
  leaves every stored transaction whose \<open>manual_category\<close> is \<open>1\<close> exactly as it was (its
  category and ignored fields in particular), whatever the rules say; every other
  transaction is updated from the current rules (when the dialog is confirmed and some
  rule is enabled): ignored when an ignore rule matches, and moved to the category the
  rules give when that differs from its own and is in the catalogue.
\<close>

theorem manual_override_protected:
  "distinct (map row_id (transactions d)) \<longrightarrow>
     transactions (rs_db (applyRulesToExisting confirmed d)) =
       map (\<lambda>t. if row_manual_category t = 1 then t
                else if confirmed \<and> (\<exists>r\<in>set (transaction_rules d). enabled r = 1)
                     then reapplied d t else t)
           (transactions d)"
  using reapply_all by blast

theorem manual_override_protected_witness:
  "transactions (rs_db (applyRulesToExisting True stored_db))
     = [stored 1 1, (stored 2 0)\<lparr> row_category_id := Some 3 \<rparr>]"
proof -
  have h: "distinct (map row_id (transactions stored_db))"
    by (simp add: stored_db_def stored_def)
  have v: "map (\<lambda>t. if row_manual_category t = 1 then t
                else if True \<and> (\<exists>r\<in>set (transaction_rules stored_db). enabled r = 1)
                     then reapplied stored_db t else t)
           (transactions stored_db)
         = [stored 1 1, (stored 2 0)\<lparr> row_category_id := Some 3 \<rparr>]"
    by code_simp
  from manual_override_protected [of stored_db True] h v show ?thesis by simp
qed

subsection \<open>Import\<close>

text \<open>
  C1 fails on the code.  The date \<open>garbage\<close> does not normalise under \<open>DD/MM/YYYY\<close>, the
  row is not stored (the \<open>INSERT\<close> fails on the \<open>NOT NULL\<close> date), and yet the row is
  counted: the import record says \<open>1\<close> and the message says one transaction was imported.
\<close>

theorem unparseable_date_still_counted:
  "normalizeDate no_dateParse (Some ''garbage'') ''DD/MM/YYYY'' = None
   \<and> processUploadedFiles no_dateParse
        (papa_const [HeaderlessRow [''garbage'', ''SALARY'', ''2000.00'']])
        single_profile ''1'' [] [example_file] (example_db [])
     = ((example_db [])\<lparr> import_records :=
            [\<lparr> imp_id = 1, imp_filename = ''a.csv'', imp_account_id = ''1'',
               imp_transaction_count = 1 \<rparr>],
          import_seq := 1 \<rparr>,
        Msg_success ''Imported 1 transactions from 1 file(s)'')"
  by code_simp

theorem unparseable_date_still_counted_witness:
  "snd (processUploadedFiles no_dateParse
          (papa_const [HeaderlessRow [''garbage'', ''SALARY'', ''2000.00'']])
          single_profile ''1'' [] [example_file] (example_db []))
     = Msg_success ''Imported 1 transactions from 1 file(s)''
   \<and> transactions (fst (processUploadedFiles no_dateParse
          (papa_const [HeaderlessRow [''garbage'', ''SALARY'', ''2000.00'']])
          single_profile ''1'' [] [example_file] (example_db []))) = []"
  using unparseable_date_still_counted by (simp add: example_db_def)

text \<open>The same holds for every row: a row the mapper accepts with a \<open>null\<close> date leaves the
  database as it is and advances the counter.\<close>

lemma null_date_row_step:
  "mapTransaction dp row p i f = Some t \<Longrightarrow> date t = None \<Longrightarrow>
     import_row_step dp p i f (d, n) row = (d, n + 1)"
  by (simp add: import_row_step_def insertTransaction_def Let_def)



















subsection \<open>Date normalisation\<close>































text \<open>
  The strings the validity leaves out are not dates: a day \<open>0\<close> under a \<open>DD-Mon\<close> format is
  printed as \<open>00\<close>, which the numeric format then refuses.  The examples of the
  specification evaluate as it says.
\<close>

lemma day_zero_outside_validity:
  "\<not> valid_pair ''0-Feb-26'' ''DD-Mon-YY''
   \<and> normalizeDate no_dateParse (Some ''0-Feb-26'') ''DD-Mon-YY'' = Some ''2026-02-00''
   \<and> normalizeDate no_dateParse (Some ''2026-02-00'') ''YYYY-MM-DD'' = None"
  by code_simp

lemma normalize_examples:
  "normalizeDate no_dateParse (Some ''01/01/50'') ''MM/DD/YY'' = Some ''1950-01-01''
   \<and> normalizeDate no_dateParse (Some ''01/01/49'') ''MM/DD/YY'' = Some ''2049-01-01''
   \<and> normalizeDate no_dateParse (Some ''2024-01-15T00:00:00Z'') ''auto'' = Some ''2024-01-15''
   \<and> normalizeDate no_dateParse (Some ''16-Feb-26'') ''auto'' = Some ''2026-02-16''
   \<and> normalizeDate no_dateParse (Some ''not-a-date'') ''YYYY-MM-DD'' = None"
  by code_simp

end
